theory Spec2Isabelle
  imports Main "HOL-Library.Word"
begin

unbundle bit_operations_syntax

section \<open>The guest-code execution core of the CPU subsystem (xenia/cpu/processor.cc)\<close>

text \<open>
  A sequential shallow embedding of \<^verbatim>\<open>Processor\<close>: every member function becomes a function
  from the processor (and, for the guest-call adapter, the guest context) to its result and
  the updated processor. Pointers into containers owned by the processor are modelled as
  stable keys: a \<^verbatim>\<open>Module*\<close> is the index of the module in \<^verbatim>\<open>modules_\<close>, a
  \<^verbatim>\<open>Function*\<close> is the pair of its module's index and its address, an \<^verbatim>\<open>Entry*\<close> is its
  address in the entry table. A null pointer is \<open>None\<close>. Failed assertions and null
  dereferences are results of their own (\<open>Inl\<close>). The members of the class keep their
  names without the trailing underscore (\<^verbatim>\<open>modules_\<close> is \<open>modules\<close>). One thread runs at a
  time: locks and the interleaving of threads are not part of the model.
\<close>

subsection \<open>Data model\<close>

type_synonym u32 = "32 word"
type_synonym u64 = "64 word"

datatype error = AssertionFailed | NullPointer

text \<open>
  \<^verbatim>\<open>Symbol::Status\<close>. processor.cc names \<open>kNew\<close>, \<open>kDeclared\<close>, \<open>kDefined\<close> and
  \<open>kFailed\<close>; \<open>kExisting\<close> is the EXISTING result of the module's declare and define
  operations (spec 4.3), whose declaration is not part of processor.cc.
\<close>

datatype symbol_status = kNew | kExisting | kDeclared | kDefined | kFailed

text \<open>\<^verbatim>\<open>Entry::Status\<close> as named by processor.cc.\<close>

datatype entry_status = STATUS_NEW | STATUS_READY | STATUS_FAILED

text \<open>
  A \<^verbatim>\<open>Function\<close> (guest or builtin). The builtin payload (handler and the two opaque
  arguments) is kept as opaque handles.
\<close>

record Function =
  f_address :: u32
  f_end_address :: u32
  f_name :: string
  f_status :: symbol_status
  f_is_guest :: bool
  f_handler :: "nat option"
  f_arg0 :: nat
  f_arg1 :: nat

type_synonym function_ptr = "nat \<times> u32"

text \<open>
  A module is either the \<^verbatim>\<open>BuiltinModule\<close> of processor.cc or any other module, which
  brings its own address-containment predicate.
\<close>

datatype module_kind = BuiltinModule | OtherModule "u32 \<Rightarrow> bool"

record Module =
  m_name :: string
  m_kind :: module_kind
  m_functions :: "u32 \<rightharpoonup> Function"

record Entry =
  e_address :: u32
  e_end_address :: u32
  e_status :: entry_status
  e_function :: "function_ptr option"

text \<open>
  The frontend is an external collaborator: its three operations are parameters of the
  model. Declaring and defining receive the function object and may change it.
\<close>

record PPCFrontend =
  fe_Initialize :: bool
  fe_DeclareFunction :: "Function \<Rightarrow> bool \<times> Function"
  fe_DefineFunction :: "Function \<Rightarrow> u32 \<Rightarrow> bool \<times> Function"

datatype Backend = X64Backend

text \<open>
  Calls into the collaborators are recorded in a trace, so that "without invoking the
  frontend" is a statement about the processor.
\<close>

datatype event =
    FrontendDeclare function_ptr bool
  | FrontendDefine function_ptr bool
  | DebuggerFunctionDefined function_ptr

record Processor =
  memory :: "nat option"
  debugger :: "nat option"
  debug_info_flags :: u32
  frontend :: "PPCFrontend option"
  backend :: "Backend option"
  stack_walker :: "nat option"
  modules :: "Module list"
  builtin_module :: "nat option"
  next_builtin_address :: u32
  entry_table :: "u32 \<rightharpoonup> Entry"
  irql :: u32
  trace :: "event list"

text \<open>The part of \<^verbatim>\<open>PPCContext\<close> that processor.cc touches: \<^verbatim>\<open>r[32]\<close> and \<^verbatim>\<open>lr\<close>.\<close>

record PPCContext =
  r :: "nat \<Rightarrow> u64"
  lr :: u64

subsection \<open>IRQL\<close>

text \<open>
  Modelled from the spec: \<^verbatim>\<open>xe::atomic_exchange(new_value, cell)\<close> of xenia/base/atomic.h,
  which processor.cc only calls. "Atomic exchange of the IRQL cell, returning the previous
  value": the result is the previous content paired with the new content.
\<close>

definition atomic_exchange :: "u32 \<Rightarrow> u32 \<Rightarrow> u32 \<times> u32" where
  "atomic_exchange new_value cell = (cell, new_value)"

text \<open>\<^verbatim>\<open>Irql\<close> is an enum over \<^verbatim>\<open>uint32_t\<close>; the casts are the identity on the word.\<close>

definition RaiseIrql :: "u32 \<Rightarrow> Processor \<Rightarrow> u32 \<times> Processor" where
  "RaiseIrql new_value p =
     (case atomic_exchange new_value (irql p) of
        (previous, cell) \<Rightarrow> (previous, p\<lparr>irql := cell\<rparr>))"

text \<open>\<^verbatim>\<open>LowerIrql\<close> is declared \<^verbatim>\<open>void\<close>: the value of the exchange is dropped.\<close>

definition LowerIrql :: "u32 \<Rightarrow> Processor \<Rightarrow> unit \<times> Processor" where
  "LowerIrql old_value p =
     (case atomic_exchange old_value (irql p) of
        (previous, cell) \<Rightarrow> ((), p\<lparr>irql := cell\<rparr>))"

subsection \<open>Module registry\<close>

definition AddModule :: "Module \<Rightarrow> Processor \<Rightarrow> bool \<times> Processor" where
  "AddModule m p = (True, p\<lparr>modules := modules p @ [m]\<rparr>)"

text \<open>The module pointers of \<^verbatim>\<open>modules_\<close>, in order.\<close>

definition module_ptrs :: "Processor \<Rightarrow> nat list" where
  "module_ptrs p = [0..<length (modules p)]"

fun GetModule_loop :: "Module list \<Rightarrow> nat \<Rightarrow> string \<Rightarrow> nat option" where
  "GetModule_loop [] i n = None"
| "GetModule_loop (m # ms) i n = (if m_name m = n then Some i else GetModule_loop ms (Suc i) n)"

definition GetModule :: "string \<Rightarrow> Processor \<Rightarrow> nat option" where
  "GetModule n p = GetModule_loop (modules p) 0 n"

text \<open>
  \<^verbatim>\<open>std::vector<Module*> clone(modules_.size())\<close> makes a vector of that many null pointers;
  the loop then appends one pointer per module.
\<close>

definition GetModules :: "Processor \<Rightarrow> nat option list" where
  "GetModules p =
     foldl (\<lambda>clone m. clone @ [Some m]) (replicate (length (modules p)) None) (module_ptrs p)"

subsection \<open>Function objects behind pointers\<close>

definition get_function :: "Processor \<Rightarrow> function_ptr \<Rightarrow> Function option" where
  "get_function p fp =
     (case fp of (mi, a) \<Rightarrow>
        if mi < length (modules p) then m_functions (modules p ! mi) a else None)"

definition update_function :: "function_ptr \<Rightarrow> (Function \<Rightarrow> Function) \<Rightarrow> Processor \<Rightarrow> Processor" where
  "update_function fp g p =
     (case fp of (mi, a) \<Rightarrow>
        if mi < length (modules p)
        then p\<lparr>modules := (modules p)[mi := (modules p ! mi)
               \<lparr>m_functions := (m_functions (modules p ! mi))
                  (a := map_option g (m_functions (modules p ! mi) a))\<rparr>]\<rparr>
        else p)"

definition set_status :: "function_ptr \<Rightarrow> symbol_status \<Rightarrow> Processor \<Rightarrow> Processor" where
  "set_status fp st p = update_function fp (\<lambda>fn. fn\<lparr>f_status := st\<rparr>) p"

definition set_end_address :: "function_ptr \<Rightarrow> u32 \<Rightarrow> Processor \<Rightarrow> Processor" where
  "set_end_address fp e p = update_function fp (\<lambda>fn. fn\<lparr>f_end_address := e\<rparr>) p"

definition set_name :: "function_ptr \<Rightarrow> string \<Rightarrow> Processor \<Rightarrow> Processor" where
  "set_name fp n p = update_function fp (\<lambda>fn. fn\<lparr>f_name := n\<rparr>) p"

definition SetupBuiltin :: "function_ptr \<Rightarrow> nat \<Rightarrow> nat \<Rightarrow> nat \<Rightarrow> Processor \<Rightarrow> Processor" where
  "SetupBuiltin fp handler arg0 arg1 p =
     update_function fp (\<lambda>fn. fn\<lparr>f_handler := Some handler, f_arg0 := arg0, f_arg1 := arg1\<rparr>) p"

subsection \<open>Modules\<close>

definition new_BuiltinModule :: Module where
  "new_BuiltinModule = \<lparr>m_name = ''builtin'', m_kind = BuiltinModule, m_functions = Map.empty\<rparr>"

definition ContainsAddress :: "Module \<Rightarrow> u32 \<Rightarrow> bool" where
  "ContainsAddress m address =
     (case m_kind m of
        BuiltinModule \<Rightarrow> (address AND 0xFFFFFFF0) = 0xFFFFFFF0
      | OtherModule contains \<Rightarrow> contains address)"

text \<open>
  \<^verbatim>\<open>BuiltinModule::CreateFunction\<close> makes a \<^verbatim>\<open>BuiltinFunction\<close>; the other modules make guest
  functions. A fresh symbol is in state \<open>kNew\<close> (the spec's UNDECLARED).
\<close>

definition CreateFunction :: "Module \<Rightarrow> u32 \<Rightarrow> Function" where
  "CreateFunction m address =
     \<lparr>f_address = address, f_end_address = 0, f_name = [], f_status = kNew,
      f_is_guest = (case m_kind m of BuiltinModule \<Rightarrow> False | OtherModule c \<Rightarrow> True),
      f_handler = None, f_arg0 = 0, f_arg1 = 0\<rparr>"

text \<open>
  Modelled from the spec: \<^verbatim>\<open>Module::DeclareFunction\<close> of xenia/cpu/module.h, which
  processor.cc only calls. "If no symbol exists at that address, create one in state
  UNDECLARED and return NEW with the new symbol; otherwise return EXISTING with the existing
  symbol."
\<close>

definition Module_DeclareFunction :: "Module \<Rightarrow> u32 \<Rightarrow> symbol_status \<times> Module" where
  "Module_DeclareFunction m address =
     (case m_functions m address of
        None \<Rightarrow> (kNew, m\<lparr>m_functions := (m_functions m)(address \<mapsto> CreateFunction m address)\<rparr>)
      | Some fn \<Rightarrow> (kExisting, m))"

text \<open>
  Modelled from the spec: \<^verbatim>\<open>Module::DefineFunction\<close> of xenia/cpu/module.h, which
  processor.cc only calls. The caller that finds the symbol DECLARED observes NEW and
  drives the definition; a FAILED symbol gives FAILED; any other symbol gives EXISTING. In a
  sequential run the definer has left DECLARED before the next call, so nobody waits.
\<close>

definition Module_DefineFunction :: "Function \<Rightarrow> symbol_status" where
  "Module_DefineFunction fn =
     (if f_status fn = kDeclared then kNew
      else if f_status fn = kFailed then kFailed
      else kExisting)"

subsection \<open>Entry table\<close>

definition new_Entry :: "u32 \<Rightarrow> Entry" where
  "new_Entry address =
     \<lparr>e_address = address, e_end_address = 0, e_status = STATUS_NEW, e_function = None\<rparr>"

text \<open>
  Modelled from the spec: \<^verbatim>\<open>EntryTable::Get\<close>, the entry table's lookup, which
  processor.cc only calls. "Read-only Entry Table lookup."
\<close>

definition EntryTable_Get :: "(u32 \<rightharpoonup> Entry) \<Rightarrow> u32 \<Rightarrow> Entry option" where
  "EntryTable_Get tbl address = tbl address"

text \<open>
  Modelled from the spec: \<^verbatim>\<open>EntryTable::GetOrCreate\<close>, the entry table's insert-or-get,
  which processor.cc only calls. A missing entry is inserted in state NEW and NEW is
  returned; for an entry that is there its status is returned and nothing is written (an
  entry left in NEW is found NEW again, so "a subsequent call will retry the search").
\<close>

definition EntryTable_GetOrCreate :: "(u32 \<rightharpoonup> Entry) \<Rightarrow> u32 \<Rightarrow> entry_status \<times> (u32 \<rightharpoonup> Entry)" where
  "EntryTable_GetOrCreate tbl address =
     (case tbl address of
        None \<Rightarrow> (STATUS_NEW, tbl(address \<mapsto> new_Entry address))
      | Some e \<Rightarrow> (e_status e, tbl))"

definition update_entry :: "u32 \<Rightarrow> (Entry \<Rightarrow> Entry) \<Rightarrow> Processor \<Rightarrow> Processor" where
  "update_entry address g p =
     p\<lparr>entry_table := (entry_table p)(address := map_option g (entry_table p address))\<rparr>"

subsection \<open>Setup\<close>

text \<open>
  What \<^verbatim>\<open>Setup\<close> takes from outside: the \<^verbatim>\<open>cpu\<close> flag, whether the x64 backend is compiled
  in, the frontend that \<^verbatim>\<open>make_unique<PPCFrontend>\<close> yields, the outcome of the backend's
  \<^verbatim>\<open>Initialize\<close>, and the stack walker that \<^verbatim>\<open>StackWalker::Create\<close> yields (if any).
\<close>

record SetupEnv =
  FLAGS_cpu :: string
  XENIA_HAS_X64_BACKEND :: bool
  make_PPCFrontend :: PPCFrontend
  be_Initialize :: "Backend \<Rightarrow> bool"
  StackWalker_Create :: "nat option"

definition select_backend :: "SetupEnv \<Rightarrow> Backend option" where
  "select_backend env =
     (let backend0 = None;
          backend1 = (if XENIA_HAS_X64_BACKEND env \<and> FLAGS_cpu env = ''x64''
                      then Some X64Backend else backend0);
          backend2 = (if FLAGS_cpu env = ''any''
                      then (if XENIA_HAS_X64_BACKEND env \<and> backend1 = None
                            then Some X64Backend else backend1)
                      else backend1)
      in backend2)"

definition Setup :: "SetupEnv \<Rightarrow> Processor \<Rightarrow> error + (bool \<times> Processor)" where
  "Setup env p0 =
     (let p1 = p0\<lparr>debug_info_flags := 0\<rparr>;
          fe = make_PPCFrontend env
      in if memory p1 = None then Inl AssertionFailed
         else
           let p2 = p1\<lparr>builtin_module := Some (length (modules p1)),
                       modules := modules p1 @ [new_BuiltinModule]\<rparr>
           in if frontend p2 \<noteq> None \<or> backend p2 \<noteq> None then Inr (False, p2)
              else
                (case select_backend env of
                   None \<Rightarrow> Inr (False, p2)
                 | Some be \<Rightarrow>
                     if \<not> be_Initialize env be then Inr (False, p2)
                     else if \<not> fe_Initialize fe then Inr (False, p2)
                     else
                       let p3 = p2\<lparr>backend := Some be, frontend := Some fe\<rparr>;
                           p4 = p3\<lparr>stack_walker := StackWalker_Create env\<rparr>
                       in if stack_walker p4 = None then Inr (False, p4)
                          else Inr (True, p4)))"

subsection \<open>Builtins\<close>

definition DefineBuiltin ::
  "string \<Rightarrow> nat \<Rightarrow> nat \<Rightarrow> nat \<Rightarrow> Processor \<Rightarrow> error + (function_ptr \<times> Processor)" where
  "DefineBuiltin name handler arg0 arg1 p0 =
     (let address = next_builtin_address p0;
          p1 = p0\<lparr>next_builtin_address := next_builtin_address p0 + 4\<rparr>
      in case builtin_module p1 of
           None \<Rightarrow> Inl NullPointer
         | Some bi \<Rightarrow>
             if \<not> bi < length (modules p1) then Inl NullPointer
             else
               (case Module_DeclareFunction (modules p1 ! bi) address of
                  (symbol_status, m) \<Rightarrow>
                    let p2 = p1\<lparr>modules := (modules p1)[bi := m]\<rparr>;
                        function = (bi, address);
                        p3 = set_end_address function (address + 4) p2;
                        p4 = set_name function name p3;
                        p5 = SetupBuiltin function handler arg0 arg1 p4;
                        p6 = set_status function kDeclared p5
                    in Inr (function, p6)))"

subsection \<open>Resolution\<close>

definition QueryFunction :: "u32 \<Rightarrow> Processor \<Rightarrow> function_ptr option" where
  "QueryFunction address p =
     (case EntryTable_Get (entry_table p) address of
        None \<Rightarrow> None
      | Some entry \<Rightarrow> e_function entry)"

text \<open>\<^verbatim>\<open>LookupFunction(Module*, uint32_t)\<close>.\<close>

definition LookupFunction_module ::
  "nat \<Rightarrow> u32 \<Rightarrow> Processor \<Rightarrow> error + (function_ptr option \<times> Processor)" where
  "LookupFunction_module mi address p0 =
     (if \<not> mi < length (modules p0) then Inl NullPointer
      else
        (case Module_DeclareFunction (modules p0 ! mi) address of
           (symbol_status, m) \<Rightarrow>
             let p1 = p0\<lparr>modules := (modules p0)[mi := m]\<rparr>;
                 function = (mi, address)
             in if symbol_status = kNew then
                  (case get_function p1 function of
                     None \<Rightarrow> Inl NullPointer
                   | Some fn \<Rightarrow>
                       if \<not> f_is_guest fn then Inl AssertionFailed
                       else
                         (case frontend p1 of
                            None \<Rightarrow> Inl NullPointer
                          | Some fe \<Rightarrow>
                              (case fe_DeclareFunction fe fn of
                                 (ok, fn') \<Rightarrow>
                                   let p2 = (update_function function (\<lambda>x. fn') p1)
                                              \<lparr>trace := trace p1 @ [FrontendDeclare function ok]\<rparr>
                                   in if \<not> ok then Inr (None, set_status function kFailed p2)
                                      else Inr (Some function, set_status function kDeclared p2))))
                else Inr (Some function, p1)))"

fun find_module :: "Module list \<Rightarrow> nat \<Rightarrow> u32 \<Rightarrow> nat option" where
  "find_module [] i address = None"
| "find_module (m # ms) i address =
     (if ContainsAddress m address then Some i else find_module ms (Suc i) address)"

text \<open>\<^verbatim>\<open>LookupFunction(uint32_t)\<close>.\<close>

definition LookupFunction :: "u32 \<Rightarrow> Processor \<Rightarrow> error + (function_ptr option \<times> Processor)" where
  "LookupFunction address p =
     (case find_module (modules p) 0 address of
        None \<Rightarrow> Inr (None, p)
      | Some code_module \<Rightarrow> LookupFunction_module code_module address p)"

definition DemandFunction :: "function_ptr \<Rightarrow> Processor \<Rightarrow> error + (bool \<times> Processor)" where
  "DemandFunction function p0 =
     (case get_function p0 function of
        None \<Rightarrow> Inl NullPointer
      | Some fn \<Rightarrow>
          let symbol_status = Module_DefineFunction fn
          in if symbol_status = kNew then
               (if \<not> f_is_guest fn then Inl AssertionFailed
                else
                  (case frontend p0 of
                     None \<Rightarrow> Inl NullPointer
                   | Some fe \<Rightarrow>
                       (case fe_DefineFunction fe fn (debug_info_flags p0) of
                          (ok, fn') \<Rightarrow>
                            let p1 = (update_function function (\<lambda>x. fn') p0)
                                       \<lparr>trace := trace p0 @ [FrontendDefine function ok]\<rparr>
                            in if \<not> ok then Inr (False, set_status function kFailed p1)
                               else
                                 let p2 = (if debugger p1 \<noteq> None
                                           then p1\<lparr>trace := trace p1 @ [DebuggerFunctionDefined function]\<rparr>
                                           else p1);
                                     p3 = set_status function kDefined p2
                                 in (case get_function p3 function of
                                       None \<Rightarrow> Inl NullPointer
                                     | Some fn3 \<Rightarrow>
                                         if f_status fn3 = kFailed then Inr (False, p3)
                                         else Inr (True, p3)))))
             else if symbol_status = kFailed then Inr (False, p0)
             else Inr (True, p0))"

definition ResolveFunction :: "u32 \<Rightarrow> Processor \<Rightarrow> error + (function_ptr option \<times> Processor)" where
  "ResolveFunction address p0 =
     (case EntryTable_GetOrCreate (entry_table p0) address of
        (status, tbl) \<Rightarrow>
          let p1 = p0\<lparr>entry_table := tbl\<rparr>
          in if status = STATUS_NEW then
               (case LookupFunction address p1 of
                  Inl err \<Rightarrow> Inl err
                | Inr (None, p2) \<Rightarrow> Inr (None, p2)
                | Inr (Some function, p2) \<Rightarrow>
                    (case DemandFunction function p2 of
                       Inl err \<Rightarrow> Inl err
                     | Inr (False, p3) \<Rightarrow>
                         Inr (None, update_entry address (\<lambda>e. e\<lparr>e_status := STATUS_FAILED\<rparr>) p3)
                     | Inr (True, p3) \<Rightarrow>
                         (case get_function p3 function of
                            None \<Rightarrow> Inl NullPointer
                          | Some fn \<Rightarrow>
                              let p4 = update_entry address (\<lambda>e. e\<lparr>e_function := Some function\<rparr>) p3;
                                  p5 = update_entry address (\<lambda>e. e\<lparr>e_end_address := f_end_address fn\<rparr>) p4;
                                  p6 = update_entry address (\<lambda>e. e\<lparr>e_status := STATUS_READY\<rparr>) p5
                              in (case entry_table p6 address of
                                    None \<Rightarrow> Inl NullPointer
                                  | Some entry \<Rightarrow> Inr (e_function entry, p6)))))
             else if status = STATUS_READY then
               (case entry_table p1 address of
                  None \<Rightarrow> Inl NullPointer
                | Some entry \<Rightarrow> Inr (e_function entry, p1))
             else Inr (None, p1))"

subsection \<open>Guest calls\<close>

text \<open>
  \<^verbatim>\<open>Function::Call(thread_state, return_address)\<close> runs host code that is not part of
  processor.cc: it is the parameter \<open>call\<close>, which may change the guest context in any way.
  The thread state is its guest context.
\<close>

type_synonym call_fn = "function_ptr \<Rightarrow> u32 \<Rightarrow> PPCContext \<Rightarrow> bool \<times> PPCContext"

definition Execute ::
  "call_fn \<Rightarrow> PPCContext \<Rightarrow> u32 \<Rightarrow> Processor \<Rightarrow> error + (bool \<times> Processor \<times> PPCContext)" where
  "Execute call context0 address p0 =
     (case ResolveFunction address p0 of
        Inl err \<Rightarrow> Inl err
      | Inr (None, p1) \<Rightarrow> Inr (False, p1, context0)
      | Inr (Some function, p1) \<Rightarrow>
          let context1 = context0\<lparr>r := (r context0)(1 := r context0 1 - (64 + 112))\<rparr>;
              previous_lr = lr context1;
              context2 = context1\<lparr>lr := 0xBCBCBCBC\<rparr>
          in (case call function (ucast (lr context2)) context2 of
                (result, context3) \<Rightarrow>
                  let context4 = context3\<lparr>lr := previous_lr\<rparr>;
                      context5 = context4\<lparr>r := (r context4)(1 := r context4 1 + (64 + 112))\<rparr>
                  in Inr (result, p1, context5)))"

text \<open>The loop \<^verbatim>\<open>for (i = 0; i < arg_count; ++i) context->r[3 + i] = args[i]\<close>.\<close>

fun marshal_args :: "u64 list \<Rightarrow> nat \<Rightarrow> PPCContext \<Rightarrow> PPCContext" where
  "marshal_args [] i context = context"
| "marshal_args (a # as) i context =
     marshal_args as (Suc i) (context\<lparr>r := (r context)(3 + i := a)\<rparr>)"

text \<open>
  The value form. \<open>args\<close> is the argument array and its length is \<^verbatim>\<open>arg_count\<close>;
  \<^verbatim>\<open>assert_true(arg_count <= 5)\<close> is a result of its own.
\<close>

definition Execute_args ::
  "call_fn \<Rightarrow> PPCContext \<Rightarrow> u32 \<Rightarrow> u64 list \<Rightarrow> Processor \<Rightarrow> error + (u64 \<times> Processor \<times> PPCContext)" where
  "Execute_args call context0 address args p0 =
     (if \<not> length args \<le> 5 then Inl AssertionFailed
      else
        let context1 = marshal_args args 0 context0
        in (case Execute call context1 address p0 of
              Inl err \<Rightarrow> Inl err
            | Inr (ok, p1, context2) \<Rightarrow>
                if \<not> ok then Inr (0xDEADBABE, p1, context2)
                else Inr (r context2 3, p1, context2)))"

subsection \<open>Runs of processor operations\<close>

text \<open>
  A client of the processor issues operations one after the other; \<open>run_ops\<close> threads the
  processor through them and stops at the first failed assertion or null dereference.
\<close>

datatype processor_op =
    OpSetup SetupEnv
  | OpAddModule Module
  | OpDefineBuiltin string nat nat nat
  | OpQueryFunction u32
  | OpResolveFunction u32
  | OpExecute PPCContext u32
  | OpExecute_args PPCContext u32 "u64 list"
  | OpRaiseIrql u32
  | OpLowerIrql u32

fun run_op :: "call_fn \<Rightarrow> processor_op \<Rightarrow> Processor \<Rightarrow> error + Processor" where
  "run_op call (OpSetup env) p = map_sum id snd (Setup env p)"
| "run_op call (OpAddModule m) p = Inr (snd (AddModule m p))"
| "run_op call (OpDefineBuiltin n h a0 a1) p = map_sum id snd (DefineBuiltin n h a0 a1 p)"
| "run_op call (OpQueryFunction a) p = Inr p"
| "run_op call (OpResolveFunction a) p = map_sum id snd (ResolveFunction a p)"
| "run_op call (OpExecute c a) p = map_sum id (\<lambda>(ok, p', c'). p') (Execute call c a p)"
| "run_op call (OpExecute_args c a args) p =
     map_sum id (\<lambda>(v, p', c'). p') (Execute_args call c a args p)"
| "run_op call (OpRaiseIrql n) p = Inr (snd (RaiseIrql n p))"
| "run_op call (OpLowerIrql n) p = Inr (snd (LowerIrql n p))"

fun run_ops :: "call_fn \<Rightarrow> processor_op list \<Rightarrow> Processor \<Rightarrow> error + Processor" where
  "run_ops call [] p = Inr p"
| "run_ops call (op # ops) p =
     (case run_op call op p of Inl err \<Rightarrow> Inl err | Inr p1 \<Rightarrow> run_ops call ops p1)"

text \<open>Successive calls of \<^verbatim>\<open>DefineBuiltin\<close>, collecting the functions they return.\<close>

fun DefineBuiltins ::
  "(string \<times> nat \<times> nat \<times> nat) list \<Rightarrow> Processor \<Rightarrow> error + (function_ptr list \<times> Processor)" where
  "DefineBuiltins [] p = Inr ([], p)"
| "DefineBuiltins ((n, h, a0, a1) # rs) p =
     (case DefineBuiltin n h a0 a1 p of
        Inl err \<Rightarrow> Inl err
      | Inr (f, p1) \<Rightarrow>
          (case DefineBuiltins rs p1 of
             Inl err \<Rightarrow> Inl err
           | Inr (fs, p2) \<Rightarrow> Inr (f # fs, p2)))"

subsection \<open>Concrete processors for the scenarios\<close>

text \<open>
  The constructor stores its arguments. The initial value of \<^verbatim>\<open>next_builtin_address_\<close>
  is given where the class is declared (xenia/cpu/processor.h), not in processor.cc: it is a
  parameter. The other members start empty.
\<close>

definition new_Processor :: "nat option \<Rightarrow> nat option \<Rightarrow> u32 \<Rightarrow> Processor" where
  "new_Processor mem dbg first_builtin =
     \<lparr>memory = mem, debugger = dbg, debug_info_flags = 0, frontend = None, backend = None,
      stack_walker = None, modules = [], builtin_module = None,
      next_builtin_address = first_builtin, entry_table = Map.empty, irql = 0, trace = []\<rparr>"

text \<open>A frontend whose declare and define succeed or fail as told.\<close>

definition scenario_frontend :: "bool \<Rightarrow> bool \<Rightarrow> PPCFrontend" where
  "scenario_frontend declare_ok define_ok =
     \<lparr>fe_Initialize = True,
      fe_DeclareFunction = (\<lambda>fn. (declare_ok, fn\<lparr>f_end_address := f_address fn + 0x40\<rparr>)),
      fe_DefineFunction = (\<lambda>fn flags. (define_ok, fn))\<rparr>"

definition scenario_env :: "PPCFrontend \<Rightarrow> SetupEnv" where
  "scenario_env fe =
     \<lparr>FLAGS_cpu = ''any'', XENIA_HAS_X64_BACKEND = True, make_PPCFrontend = fe,
      be_Initialize = (\<lambda>b. True), StackWalker_Create = Some 0\<rparr>"

text \<open>A guest module M that contains the addresses from 0x82000000 up to 0x82100000.\<close>

definition scenario_module :: Module where
  "scenario_module =
     \<lparr>m_name = ''M'', m_kind = OtherModule (\<lambda>a. 0x82000000 \<le> a \<and> a < 0x82100000),
      m_functions = Map.empty\<rparr>"

text \<open>
  A fresh processor after \<^verbatim>\<open>Setup\<close> and \<^verbatim>\<open>AddModule(M)\<close>. Its first builtin address is
  0xFFFFFFF0, the lowest address the builtin module contains ("the source reserves
  0xFFFFFFF0 and upwards").
\<close>

definition scenario_processor :: "PPCFrontend \<Rightarrow> Processor" where
  "scenario_processor fe =
     (case Setup (scenario_env fe) (new_Processor (Some 0) None 0xFFFFFFF0) of
        Inl err \<Rightarrow> new_Processor (Some 0) None 0xFFFFFFF0
      | Inr (ok, p) \<Rightarrow> snd (AddModule scenario_module p))"

subsection \<open>Notions used by the properties\<close>

text \<open>
  The context a function is entered with by \<^verbatim>\<open>Execute\<close>: the stack pointer \<^verbatim>\<open>r[1]\<close> lowered
  by 64 + 112 and the link register set to 0xBCBCBCBC; and the context the function leaves
  behind.
\<close>

definition callee_context :: "PPCContext \<Rightarrow> PPCContext" where
  "callee_context c = c\<lparr>r := (r c)(1 := r c 1 - (64 + 112)), lr := 0xBCBCBCBC\<rparr>"

definition callee_result :: "call_fn \<Rightarrow> function_ptr \<Rightarrow> PPCContext \<Rightarrow> PPCContext" where
  "callee_result call f c = snd (call f 0xBCBCBCBC (callee_context c))"

text \<open>The guest context of scenario S5: \<^verbatim>\<open>r1 = 0x70000000\<close>, \<^verbatim>\<open>lr = 0x1234\<close>.\<close>

definition scenario_context :: PPCContext where
  "scenario_context = \<lparr>r = (\<lambda>i. 0)(1 := 0x70000000), lr = 0x1234\<rparr>"

text \<open>
  A builtin symbol as \<^verbatim>\<open>DefineBuiltin\<close> leaves it: the end address is the address plus 4
  and the status is DECLARED.
\<close>

definition builtin_declared :: "Processor \<Rightarrow> function_ptr \<Rightarrow> bool" where
  "builtin_declared p f =
     (case get_function p f of
        None \<Rightarrow> False
      | Some fn \<Rightarrow> f_end_address fn = snd f + 4 \<and> f_status fn = kDeclared)"

text \<open>
  The backends this build has, in the order \<^verbatim>\<open>Setup\<close> tries them, and the first of a
  list of backends (the spec's "first available backend").
\<close>

definition available_backends :: "SetupEnv \<Rightarrow> Backend list" where
  "available_backends env = (if XENIA_HAS_X64_BACKEND env then [X64Backend] else [])"

definition first_backend :: "Backend list \<Rightarrow> Backend option" where
  "first_backend bs = (case bs of [] \<Rightarrow> None | b # rest \<Rightarrow> Some b)"

lemmas scenario_defs =
  scenario_processor_def scenario_frontend_def scenario_env_def scenario_module_def
  new_Processor_def Setup_def select_backend_def AddModule_def new_BuiltinModule_def

lemmas resolve_defs =
  ResolveFunction_def EntryTable_GetOrCreate_def new_Entry_def LookupFunction_def
  ContainsAddress_def LookupFunction_module_def Module_DeclareFunction_def CreateFunction_def
  DemandFunction_def Module_DefineFunction_def update_entry_def
  get_function_def update_function_def set_status_def Let_def

lemmas builtin_defs =
  DefineBuiltin_def set_end_address_def set_name_def SetupBuiltin_def set_status_def
  update_function_def get_function_def Module_DeclareFunction_def CreateFunction_def Let_def

section \<open>Properties\<close>

subsection \<open>IRQL\<close>

text \<open>
  C9, as the code has it. \<^verbatim>\<open>RaiseIrql\<close> stores the new level and returns the previous
  one. \<^verbatim>\<open>LowerIrql\<close> stores the level it is given and returns nothing.
\<close>

theorem Irql_exchange:
  "RaiseIrql n p = (irql p, p\<lparr>irql := n\<rparr>) \<and> LowerIrql n p = ((), p\<lparr>irql := n\<rparr>)"
  by (simp add: RaiseIrql_def LowerIrql_def atomic_exchange_def)

text \<open>
  C9 as stated fails for \<^verbatim>\<open>LowerIrql\<close>: on two processors whose IRQL cells hold 1 and 2 it
  returns the same thing, where \<^verbatim>\<open>RaiseIrql\<close> returns 1 and 2.
\<close>

theorem LowerIrql_returns_no_previous_value:
  "fst (LowerIrql 0 ((new_Processor None None 0xFFFFFFF0)\<lparr>irql := 1\<rparr>))
     = fst (LowerIrql 0 ((new_Processor None None 0xFFFFFFF0)\<lparr>irql := 2\<rparr>))
   \<and> fst (RaiseIrql 0 ((new_Processor None None 0xFFFFFFF0)\<lparr>irql := 1\<rparr>)) = 1
   \<and> fst (RaiseIrql 0 ((new_Processor None None 0xFFFFFFF0)\<lparr>irql := 2\<rparr>)) = 2"
  by (simp add: RaiseIrql_def LowerIrql_def atomic_exchange_def new_Processor_def)

subsection \<open>Module registry\<close>

lemma foldl_snoc_Some: "foldl (\<lambda>clone m. clone @ [Some m]) acc xs = acc @ map Some xs"
  by (induction xs arbitrary: acc) simp_all

lemma GetModules_eq:
  "GetModules p = replicate (length (modules p)) None @ map Some (module_ptrs p)"
  by (simp add: GetModules_def foldl_snoc_Some)

text \<open>
  C3 fails on the code. With the builtin module and the module M registered,
  \<^verbatim>\<open>GetModules\<close> returns four slots: two null pointers, then the two modules.
\<close>

theorem GetModules_padded:
  "GetModules (scenario_processor (scenario_frontend True True)) = [None, None, Some 0, Some 1]"
  by (simp add: GetModules_eq module_ptrs_def scenario_defs upt_rec numeral_2_eq_2)

subsection \<open>Resolution\<close>

text \<open>
  C1 fails on the code. The module M contains 0x82010000 and the frontend fails to declare
  the function: \<^verbatim>\<open>ResolveFunction\<close> returns null after one call of the frontend, and the
  entry it created is still in state NEW, not FAILED.
\<close>

theorem ResolveFunction_declare_failure_leaves_entry_NEW:
  "(case ResolveFunction 0x82010000 (scenario_processor (scenario_frontend False True)) of
      Inl err \<Rightarrow> None
    | Inr (f, p) \<Rightarrow> Some (f, map_option e_status (entry_table p 0x82010000), trace p))
   = Some (None, Some STATUS_NEW, [FrontendDeclare (1, 0x82010000) False])"
  by (simp add: scenario_defs resolve_defs)

lemma entry_table_update_function [simp]:
  "entry_table (update_function fp g p) = entry_table p"
  by (cases fp) (simp add: update_function_def)

lemma entry_table_set_status [simp]: "entry_table (set_status fp st p) = entry_table p"
  by (simp add: set_status_def)

lemma LookupFunction_module_entry_table:
  "LookupFunction_module mi a p = Inr (x, p') \<Longrightarrow> entry_table p' = entry_table p"
  by (auto simp: LookupFunction_module_def Let_def split: if_splits prod.splits option.splits)

lemma LookupFunction_entry_table:
  "LookupFunction a p = Inr (x, p') \<Longrightarrow> entry_table p' = entry_table p"
  by (auto simp: LookupFunction_def dest: LookupFunction_module_entry_table split: option.splits)

lemma DemandFunction_entry_table:
  "DemandFunction f p = Inr (x, p') \<Longrightarrow> entry_table p' = entry_table p"
  by (auto simp: DemandFunction_def Let_def split: if_splits prod.splits option.splits)

lemma ResolveFunction_FAILED:
  "entry_table p a = Some e \<Longrightarrow> e_status e = STATUS_FAILED \<Longrightarrow> ResolveFunction a p = Inr (None, p)"
  by (simp add: ResolveFunction_def EntryTable_GetOrCreate_def)

lemma ResolveFunction_READY:
  "entry_table p a = Some e \<Longrightarrow> e_status e = STATUS_READY \<Longrightarrow>
   ResolveFunction a p = Inr (e_function e, p)"
  by (simp add: ResolveFunction_def EntryTable_GetOrCreate_def)

lemma ResolveFunction_other_entry:
  assumes "ResolveFunction b p = Inr (x, p')" and "a \<noteq> b"
  shows "entry_table p' a = entry_table p a"
  using assms
  by (auto simp: ResolveFunction_def EntryTable_GetOrCreate_def Let_def update_entry_def
      split: if_splits prod.splits option.splits sum.splits bool.splits
      dest!: LookupFunction_entry_table DemandFunction_entry_table)

lemma ResolveFunction_settled_entry:
  assumes "ResolveFunction b p = Inr (x, p')"
    and "entry_table p a = Some e" and "e_status e \<noteq> STATUS_NEW"
  shows "entry_table p' a = Some e"
proof (cases "a = b")
  case False
  with assms show ?thesis by (simp add: ResolveFunction_other_entry)
next
  case True
  show ?thesis
  proof (cases "e_status e")
    case STATUS_NEW
    with assms show ?thesis by simp
  next
    case STATUS_READY
    with assms True show ?thesis by (auto simp: ResolveFunction_READY)
  next
    case STATUS_FAILED
    with assms True show ?thesis by (auto simp: ResolveFunction_FAILED)
  qed
qed

lemma Execute_processor:
  "Execute call c a p = Inr (ok, p', c') \<Longrightarrow> \<exists>x. ResolveFunction a p = Inr (x, p')"
  by (auto simp: Execute_def Let_def split: sum.splits prod.splits option.splits)

lemma Execute_args_processor:
  "Execute_args call c a args p = Inr (v, p', c') \<Longrightarrow> \<exists>x. ResolveFunction a p = Inr (x, p')"
  by (auto simp: Execute_args_def Let_def dest: Execute_processor split: sum.splits prod.splits if_splits)

lemma Setup_entry_table:
  "Setup env p = Inr (ok, p') \<Longrightarrow> entry_table p' = entry_table p"
  by (auto simp: Setup_def Let_def split: if_splits option.splits)

lemma entry_table_set_end_address [simp]: "entry_table (set_end_address fp st p) = entry_table p"
  by (simp add: set_end_address_def)
lemma entry_table_set_name [simp]: "entry_table (set_name fp st p) = entry_table p"
  by (simp add: set_name_def)
lemma entry_table_SetupBuiltin [simp]: "entry_table (SetupBuiltin fp h a0 a1 p) = entry_table p"
  by (simp add: SetupBuiltin_def)

lemma DefineBuiltin_entry_table:
  "DefineBuiltin n h a0 a1 p = Inr (f, p') \<Longrightarrow> entry_table p' = entry_table p"
  by (auto simp: DefineBuiltin_def Let_def split: if_splits option.splits prod.splits)

lemma run_op_settled_entry:
  assumes "run_op call op p = Inr p'"
    and "entry_table p a = Some e" and "e_status e \<noteq> STATUS_NEW"
  shows "entry_table p' a = Some e"
proof (cases op)
  case (OpSetup env)
  with assms show ?thesis
    by (cases "Setup env p") (auto dest: Setup_entry_table)
next
  case (OpAddModule m)
  with assms show ?thesis by (auto simp: AddModule_def)
next
  case (OpDefineBuiltin n h a0 a1)
  with assms show ?thesis
    by (cases "DefineBuiltin n h a0 a1 p") (auto dest: DefineBuiltin_entry_table)
next
  case (OpQueryFunction b)
  with assms show ?thesis by simp
next
  case (OpResolveFunction b)
  with assms show ?thesis
    by (cases "ResolveFunction b p") (auto dest: ResolveFunction_settled_entry)
next
  case (OpExecute c b)
  with assms show ?thesis
    by (cases "Execute call c b p") (auto dest!: Execute_processor dest: ResolveFunction_settled_entry)
next
  case (OpExecute_args c b args)
  with assms show ?thesis
    by (cases "Execute_args call c b args p")
      (auto dest!: Execute_args_processor dest: ResolveFunction_settled_entry)
next
  case (OpRaiseIrql n)
  with assms show ?thesis by (auto simp: RaiseIrql_def atomic_exchange_def)
next
  case (OpLowerIrql n)
  with assms show ?thesis by (auto simp: LowerIrql_def atomic_exchange_def)
qed

lemma run_ops_settled_entry:
  "run_ops call ops p = Inr p' \<Longrightarrow> entry_table p a = Some e \<Longrightarrow> e_status e \<noteq> STATUS_NEW
   \<Longrightarrow> entry_table p' a = Some e"
proof (induction ops arbitrary: p)
  case Nil
  then show ?case by simp
next
  case (Cons op ops)
  then show ?case
    by (auto split: sum.splits dest: run_op_settled_entry)
qed

lemma ResolveFunction_returns_READY_entry:
  assumes "ResolveFunction a p = Inr (Some f, p')"
  shows "\<exists>e. entry_table p' a = Some e \<and> e_status e = STATUS_READY \<and> e_function e = Some f"
  using assms
  by (auto simp: ResolveFunction_def EntryTable_GetOrCreate_def Let_def update_entry_def
      split: if_splits prod.splits option.splits sum.splits bool.splits)

text \<open>
  C4. Once the entry of an address is FAILED, it stays that entry through any run of
  processor operations, and every later \<^verbatim>\<open>ResolveFunction\<close> of the address returns null
  and leaves the processor as it was: no call of the frontend is added to the trace and no
  table is written.
\<close>

theorem FAILED_entry_is_permanent:
  assumes "entry_table p a = Some e" and "e_status e = STATUS_FAILED"
    and "run_ops call ops p = Inr p'"
  shows "entry_table p' a = Some e \<and> ResolveFunction a p' = Inr (None, p')"
proof -
  from assms have "entry_table p' a = Some e"
    by (auto dest: run_ops_settled_entry)
  with assms(2) show ?thesis by (simp add: ResolveFunction_FAILED)
qed

text \<open>
  C5. Once \<^verbatim>\<open>ResolveFunction\<close> has returned a function for an address, then after any run
  of processor operations \<^verbatim>\<open>ResolveFunction\<close> and \<^verbatim>\<open>QueryFunction\<close> return the same
  function for it, and \<^verbatim>\<open>ResolveFunction\<close> leaves the processor as it was (no call of the
  frontend, no write to the entry table).
\<close>

theorem READY_entry_is_stable:
  assumes "ResolveFunction a p = Inr (Some f, p1)"
    and "run_ops call ops p1 = Inr p2"
  shows "ResolveFunction a p2 = Inr (Some f, p2) \<and> QueryFunction a p2 = Some f"
proof -
  from assms(1) obtain e where e: "entry_table p1 a = Some e" "e_status e = STATUS_READY"
    "e_function e = Some f"
    by (auto dest: ResolveFunction_returns_READY_entry)
  with assms(2) have "entry_table p2 a = Some e"
    by (auto dest: run_ops_settled_entry)
  with e show ?thesis
    by (simp add: ResolveFunction_READY QueryFunction_def EntryTable_Get_def)
qed


text \<open>
  Scenario S3: the frontend fails to define 0x82010000. The first resolution returns null
  after one declare and one define and leaves the entry FAILED; so it is after further
  operations.
\<close>

theorem FAILED_entry_is_permanent_witness:
  "(case ResolveFunction 0x82010000 (scenario_processor (scenario_frontend True False)) of
      Inl err \<Rightarrow> False
    | Inr (f, p) \<Rightarrow>
        f = None \<and> map_option e_status (entry_table p 0x82010000) = Some STATUS_FAILED \<and>
        trace p = [FrontendDeclare (1, 0x82010000) True, FrontendDefine (1, 0x82010000) False] \<and>
        (case run_ops (\<lambda>f ra c. (True, c))
                [OpQueryFunction 0x82010000, OpResolveFunction 0x82010040,
                 OpResolveFunction 0x82010000] p of
           Inl err \<Rightarrow> False
         | Inr p' \<Rightarrow>
             map_option e_status (entry_table p' 0x82010000) = Some STATUS_FAILED \<and>
             ResolveFunction 0x82010000 p' = Inr (None, p')))"
proof -
  let ?e = "\<lparr>e_address = 0x82010000, e_end_address = 0, e_status = STATUS_FAILED, e_function = None\<rparr>"
  obtain p where p: "ResolveFunction 0x82010000 (scenario_processor (scenario_frontend True False)) = Inr (None, p)"
    and e: "entry_table p = [0x82010000 \<mapsto> ?e]"
    and t: "trace p = [FrontendDeclare (1, 0x82010000) True, FrontendDefine (1, 0x82010000) False]"
    and f: "frontend p = Some (scenario_frontend True False)"
    and d: "debugger p = None" "debug_info_flags p = 0"
    and m: "modules p = [new_BuiltinModule, scenario_module\<lparr>m_functions := [0x82010000 \<mapsto>
       \<lparr>f_address = 0x82010000, f_end_address = 0x82010040, f_name = [], f_status = kFailed,
        f_is_guest = True, f_handler = None, f_arg0 = 0, f_arg1 = 0\<rparr>]\<rparr>]"
    by (simp add: scenario_defs resolve_defs)
  obtain p' where p': "run_ops (\<lambda>f ra c. (True, c))
                [OpQueryFunction 0x82010000, OpResolveFunction 0x82010040,
                 OpResolveFunction 0x82010000] p = Inr p'"
    using e f m d
    by (simp add: scenario_defs resolve_defs)
  have e': "entry_table p 0x82010000 = Some ?e"
    by (simp add: e)
  have s: "e_status ?e = STATUS_FAILED"
    by simp
  from FAILED_entry_is_permanent [OF e' s p'] p e t p' show ?thesis
    by simp
qed


text \<open>Scenario S1: lazy resolution of 0x82010000 in M, then further operations.\<close>

theorem READY_entry_is_stable_witness:
  "(case ResolveFunction 0x82010000 (scenario_processor (scenario_frontend True True)) of
      Inl err \<Rightarrow> False
    | Inr (f, p1) \<Rightarrow>
        f = Some (1, 0x82010000) \<and>
        trace p1 = [FrontendDeclare (1, 0x82010000) True, FrontendDefine (1, 0x82010000) True] \<and>
        (case run_ops (\<lambda>f ra c. (True, c))
                [OpResolveFunction 0x82010040, OpDefineBuiltin ''xk'' 0 0 0] p1 of
           Inl err \<Rightarrow> False
         | Inr p2 \<Rightarrow>
             ResolveFunction 0x82010000 p2 = Inr (Some (1, 0x82010000), p2) \<and>
             QueryFunction 0x82010000 p2 = Some (1, 0x82010000)))"
proof -
  obtain p1 where p1: "ResolveFunction 0x82010000 (scenario_processor (scenario_frontend True True))
        = Inr (Some (1, 0x82010000), p1)"
    and e: "entry_table p1 = [0x82010000 \<mapsto>
       \<lparr>e_address = 0x82010000, e_end_address = 0x82010040, e_status = STATUS_READY,
        e_function = Some (1, 0x82010000)\<rparr>]"
    and t: "trace p1 = [FrontendDeclare (1, 0x82010000) True, FrontendDefine (1, 0x82010000) True]"
    and f: "frontend p1 = Some (scenario_frontend True True)"
    and d: "debugger p1 = None" "debug_info_flags p1 = 0" "builtin_module p1 = Some 0"
    and m: "modules p1 = [new_BuiltinModule, scenario_module\<lparr>m_functions := [0x82010000 \<mapsto>
       \<lparr>f_address = 0x82010000, f_end_address = 0x82010040, f_name = [], f_status = kDefined,
        f_is_guest = True, f_handler = None, f_arg0 = 0, f_arg1 = 0\<rparr>]\<rparr>]"
    by (simp add: scenario_defs resolve_defs)
  obtain p2 where p2: "run_ops (\<lambda>f ra c. (True, c))
                [OpResolveFunction 0x82010040, OpDefineBuiltin ''xk'' 0 0 0] p1 = Inr p2"
    using e f m d
    by (simp add: scenario_defs resolve_defs DefineBuiltin_def set_end_address_def set_name_def
        SetupBuiltin_def)
  from READY_entry_is_stable [OF p1 p2] p1 t p2 show ?thesis
    by simp
qed

subsection \<open>Guest calls\<close>

lemma marshal_args_r:
  "r (marshal_args args i c) j =
     (if 3 + i \<le> j \<and> j < 3 + i + length args then args ! (j - (3 + i)) else r c j)"
proof (induction args arbitrary: i c)
  case Nil
  then show ?case by auto
next
  case (Cons a as)
  from Cons.IH [of "Suc i" "c\<lparr>r := (r c)(3 + i := a)\<rparr>"] show ?case
    by (auto simp: nth_Cons')
qed

lemma marshal_args_lr: "lr (marshal_args args i c) = lr c"
  by (induction args arbitrary: i c) simp_all

lemma Execute_cases:
  "Execute call c a p =
     (case ResolveFunction a p of
        Inl err \<Rightarrow> Inl err
      | Inr (None, p1) \<Rightarrow> Inr (False, p1, c)
      | Inr (Some f, p1) \<Rightarrow>
          Inr (fst (call f 0xBCBCBCBC (callee_context c)), p1,
               (callee_result call f c)
                 \<lparr>lr := lr c, r := (r (callee_result call f c))(1 := r (callee_result call f c) 1 + 176)\<rparr>))"
  by (simp add: Execute_def callee_context_def callee_result_def Let_def
      split: sum.splits prod.splits option.splits)

text \<open>
  C2, as the code has it. After either form of \<^verbatim>\<open>Execute\<close> returns, on every exit path,
  \<^verbatim>\<open>lr\<close> is its value before the call. \<^verbatim>\<open>r[1]\<close> is its value before the call when
  resolution fails; when a function was called it is that value plus whatever the function
  added to \<^verbatim>\<open>r[1]\<close> between entry and exit, because the code adds 64 + 112 back rather
  than writing back a saved value. So \<^verbatim>\<open>r[1]\<close> is restored exactly when the function
  leaves it as it found it.
\<close>

theorem Execute_restores_lr_and_rebases_r1:
  "(Execute call c a p = Inr (ok, p', c') \<longrightarrow>
      lr c' = lr c \<and>
      (case ResolveFunction a p of
         Inr (Some f, p1) \<Rightarrow>
           r c' 1 = r c 1 + (r (callee_result call f c) 1 - r (callee_context c) 1)
       | _ \<Rightarrow> r c' 1 = r c 1)) \<and>
   (Execute_args call c a args p = Inr (v, q', c'') \<longrightarrow>
      lr c'' = lr c \<and>
      (case ResolveFunction a p of
         Inr (Some f, p1) \<Rightarrow>
           r c'' 1 = r c 1 + (r (callee_result call f (marshal_args args 0 c)) 1
                               - r (callee_context (marshal_args args 0 c)) 1)
       | _ \<Rightarrow> r c'' 1 = r c 1))"
proof -
  have scalar: "lr c' = lr c \<and>
      (case ResolveFunction a p of
         Inr (Some f, p1) \<Rightarrow>
           r c' 1 = r c 1 + (r (callee_result call f c) 1 - r (callee_context c) 1)
       | _ \<Rightarrow> r c' 1 = r c 1)"
    if "Execute call c a p = Inr (ok, p', c')" for c ok p' c'
    using that
    by (auto simp: Execute_cases callee_context_def split: sum.splits prod.splits option.splits)
  have "lr c'' = lr c \<and>
      (case ResolveFunction a p of
         Inr (Some f, p1) \<Rightarrow>
           r c'' 1 = r c 1 + (r (callee_result call f (marshal_args args 0 c)) 1
                               - r (callee_context (marshal_args args 0 c)) 1)
       | _ \<Rightarrow> r c'' 1 = r c 1)"
    if v: "Execute_args call c a args p = Inr (v, q', c'')"
  proof -
    from v obtain ok where "Execute call (marshal_args args 0 c) a p = Inr (ok, q', c'')"
      by (auto simp: Execute_args_def Let_def split: if_splits sum.splits prod.splits)
    from scalar [OF this] show ?thesis
      by (auto simp: marshal_args_lr marshal_args_r split: sum.splits prod.splits option.splits)
  qed
  with scalar show ?thesis by blast
qed


lemma scenario_resolve_S1:
  "\<exists>p1. ResolveFunction 0x82010000 (scenario_processor (scenario_frontend True True))
           = Inr (Some (1, 0x82010000), p1)"
  by (simp add: scenario_defs resolve_defs)

lemma scenario_resolve_unmapped:
  "\<exists>p1. ResolveFunction 0x10 (scenario_processor (scenario_frontend True True)) = Inr (None, p1)"
  by (simp add: scenario_defs resolve_defs)

text \<open>
  C2 as stated fails in scenario S5: the function writes \<^verbatim>\<open>r1 -= 16\<close>; on return \<^verbatim>\<open>lr\<close>
  is 0x1234 again but \<^verbatim>\<open>r1\<close> is 0x6FFFFFF0, not 0x70000000.
\<close>

theorem Execute_r1_not_restored:
  "(case Execute (\<lambda>f ra c. (True, c\<lparr>r := (r c)(1 := r c 1 - 16)\<rparr>)) scenario_context 0x82010000
           (scenario_processor (scenario_frontend True True)) of
      Inl err \<Rightarrow> False
    | Inr (ok, p', c') \<Rightarrow>
        ok \<and> r scenario_context 1 = 0x70000000 \<and> lr scenario_context = 0x1234 \<and>
        r c' 1 = 0x6FFFFFF0 \<and> lr c' = 0x1234)"
proof -
  from scenario_resolve_S1 obtain p1 where
    "ResolveFunction 0x82010000 (scenario_processor (scenario_frontend True True))
       = Inr (Some (1, 0x82010000), p1)" ..
  then show ?thesis
    by (simp add: Execute_cases callee_result_def callee_context_def scenario_context_def)
qed

text \<open>
  A function that reads the sentinel link register, overwrites \<^verbatim>\<open>lr\<close> and \<^verbatim>\<open>r3\<close> and
  leaves \<^verbatim>\<open>r1\<close> alone: both registers are as before the call, in both forms.
\<close>

theorem Execute_restores_lr_and_rebases_r1_witness:
  "(case Execute (\<lambda>f ra c. (ra = 0xBCBCBCBC \<and> lr c = 0xBCBCBCBC, c\<lparr>lr := 0, r := (r c)(3 := 42)\<rparr>))
           scenario_context 0x82010000 (scenario_processor (scenario_frontend True True)) of
      Inl err \<Rightarrow> False
    | Inr (ok, p', c') \<Rightarrow> ok \<and> r c' 1 = 0x70000000 \<and> lr c' = 0x1234) \<and>
   (case Execute_args (\<lambda>f ra c. (ra = 0xBCBCBCBC \<and> lr c = 0xBCBCBCBC, c\<lparr>lr := 0, r := (r c)(3 := 42)\<rparr>))
           scenario_context 0x82010000 [1, 2] (scenario_processor (scenario_frontend True True)) of
      Inl err \<Rightarrow> False
    | Inr (v, p', c') \<Rightarrow> v = 42 \<and> r c' 1 = 0x70000000 \<and> lr c' = 0x1234)"
proof -
  let ?call = "\<lambda>f ra c. (ra = 0xBCBCBCBC \<and> lr c = 0xBCBCBCBC, c\<lparr>lr := 0, r := (r c)(3 := 42)\<rparr>)"
  let ?p = "scenario_processor (scenario_frontend True True)"
  from scenario_resolve_S1 obtain p1 where
    res: "ResolveFunction 0x82010000 ?p = Inr (Some (1, 0x82010000), p1)" ..
  obtain c' where ex: "Execute ?call scenario_context 0x82010000 ?p = Inr (True, p1, c')"
    using res by (simp add: Execute_cases callee_context_def)
  obtain c'' where exa: "Execute_args ?call scenario_context 0x82010000 [1, 2] ?p = Inr (42, p1, c'')"
    using res by (simp add: Execute_args_def Execute_cases callee_context_def callee_result_def)
  from Execute_restores_lr_and_rebases_r1
         [of ?call scenario_context "0x82010000" ?p True p1 c' "[1, 2]" 42 p1 c'']
    ex exa res
  show ?thesis
    by (simp add: callee_result_def callee_context_def scenario_context_def)
qed

text \<open>
  C6. With at most five arguments, the value form writes argument \<open>i\<close> into register
  \<open>3 + i\<close> (so into \<^verbatim>\<open>r3..r7\<close>) and nothing else, runs the scalar form on that context, and
  returns 0xDEADBABE when the scalar form fails and \<^verbatim>\<open>r[3]\<close> of the context when it
  succeeds.
\<close>

theorem Execute_args_marshals_and_returns:
  assumes "length args \<le> 5"
  shows "(\<forall>i<length args. 3 + i \<le> 7 \<and> r (marshal_args args 0 c) (3 + i) = args ! i) \<and>
         (\<forall>j. \<not> (3 \<le> j \<and> j < 3 + length args) \<longrightarrow> r (marshal_args args 0 c) j = r c j) \<and>
         lr (marshal_args args 0 c) = lr c \<and>
         Execute_args call c a args p =
           (case Execute call (marshal_args args 0 c) a p of
              Inl err \<Rightarrow> Inl err
            | Inr (ok, p', c') \<Rightarrow> Inr (if ok then r c' 3 else 0xDEADBABE, p', c'))"
  using assms
  by (auto simp: marshal_args_r marshal_args_lr Execute_args_def Let_def
      split: sum.splits prod.splits)

text \<open>
  Five arguments land in \<^verbatim>\<open>r3..r7\<close>; a function that adds \<^verbatim>\<open>r7\<close> to \<^verbatim>\<open>r3\<close> makes the
  value form return 66, and a function that fails makes it return the sentinel.
\<close>

theorem Execute_args_marshals_and_returns_witness:
  "length [11, 22, 33, 44, 55 :: u64] \<le> 5 \<and>
   map (r (marshal_args [11, 22, 33, 44, 55] 0 scenario_context)) [1, 2, 3, 4, 5, 6, 7, 8]
     = [0x70000000, 0, 11, 22, 33, 44, 55, 0] \<and>
   (case Execute_args (\<lambda>f ra c. (True, c\<lparr>r := (r c)(3 := r c 3 + r c 7)\<rparr>)) scenario_context
           0x82010000 [11, 22, 33, 44, 55] (scenario_processor (scenario_frontend True True)) of
      Inl err \<Rightarrow> False
    | Inr (v, p', c') \<Rightarrow> v = 66) \<and>
   (case Execute_args (\<lambda>f ra c. (False, c)) scenario_context
           0x82010000 [11, 22, 33, 44, 55] (scenario_processor (scenario_frontend True True)) of
      Inl err \<Rightarrow> False
    | Inr (v, p', c') \<Rightarrow> v = 0xDEADBABE)"
proof -
  let ?p = "scenario_processor (scenario_frontend True True)"
  let ?args = "[11, 22, 33, 44, 55] :: u64 list"
  have len: "length ?args \<le> 5" by simp
  from scenario_resolve_S1 obtain p1 where
    res: "ResolveFunction 0x82010000 ?p = Inr (Some (1, 0x82010000), p1)" ..
  have m: "map (r (marshal_args ?args 0 scenario_context)) [1, 2, 3, 4, 5, 6, 7, 8]
     = [0x70000000, 0, 11, 22, 33, 44, 55, 0]"
    by (simp add: scenario_context_def)
  from Execute_args_marshals_and_returns [OF len, of scenario_context _ "0x82010000" ?p] res m
  show ?thesis
    by (simp add: Execute_cases callee_result_def callee_context_def scenario_context_def)
qed

text \<open>
  C10, as the code has it. The value form writes the arguments into the registers before
  resolution and never writes the previous contents back. When resolution fails the
  sentinel is returned and the registers hold the marshalled arguments. When a function was
  called, it was entered with the marshalled arguments in the registers, and on return
  (also when the call fails and the sentinel is returned) the registers hold what the
  function left in them.
\<close>

theorem Execute_args_leaves_argument_registers:
  assumes "Execute_args call c a args p = Inr (v, p', c')"
  shows "case ResolveFunction a p of
           Inl err \<Rightarrow> False
         | Inr (None, p1) \<Rightarrow>
             v = 0xDEADBABE \<and> c' = marshal_args args 0 c \<and>
             (\<forall>i<length args. r c' (3 + i) = args ! i)
         | Inr (Some f, p1) \<Rightarrow>
             v = (if fst (call f 0xBCBCBCBC (callee_context (marshal_args args 0 c)))
                  then r c' 3 else 0xDEADBABE) \<and>
             (\<forall>i<length args.
                r (callee_context (marshal_args args 0 c)) (3 + i) = args ! i \<and>
                r c' (3 + i) = r (callee_result call f (marshal_args args 0 c)) (3 + i))"
  using assms
  by (auto simp: Execute_args_def Execute_cases Let_def marshal_args_r callee_context_def
      split: sum.splits prod.splits option.splits if_splits)

text \<open>
  C10 as stated fails when the call fails after the function wrote an argument register:
  \<^verbatim>\<open>r3\<close> was 0, the marshalled argument is 7, the function writes 99 and returns false; the
  sentinel is returned and \<^verbatim>\<open>r3\<close> is 99.
\<close>

theorem Execute_args_callee_overwrites_argument_register:
  "(case Execute_args (\<lambda>f ra c. (False, c\<lparr>r := (r c)(3 := 99)\<rparr>)) scenario_context
           0x82010000 [7] (scenario_processor (scenario_frontend True True)) of
      Inl err \<Rightarrow> False
    | Inr (v, p', c') \<Rightarrow> v = 0xDEADBABE \<and> r scenario_context 3 = 0 \<and> r c' 3 = 99)"
proof -
  from scenario_resolve_S1 obtain p1 where
    "ResolveFunction 0x82010000 (scenario_processor (scenario_frontend True True))
       = Inr (Some (1, 0x82010000), p1)" ..
  then show ?thesis
    by (simp add: Execute_args_def Execute_cases callee_result_def callee_context_def
        scenario_context_def)
qed

text \<open>
  No module contains 0x10: resolution fails, the sentinel is returned, and \<^verbatim>\<open>r3\<close>,
  \<^verbatim>\<open>r4\<close> hold the arguments 7 and 8.
\<close>

theorem Execute_args_leaves_argument_registers_witness:
  "(case Execute_args (\<lambda>f ra c. (True, c)) scenario_context 0x10 [7, 8]
           (scenario_processor (scenario_frontend True True)) of
      Inl err \<Rightarrow> False
    | Inr (v, p', c') \<Rightarrow>
        v = 0xDEADBABE \<and> r scenario_context 3 = 0 \<and> r scenario_context 4 = 0 \<and>
        r c' 3 = 7 \<and> r c' 4 = 8)"
proof -
  let ?p = "scenario_processor (scenario_frontend True True)"
  from scenario_resolve_unmapped obtain p1 where
    res: "ResolveFunction 0x10 ?p = Inr (None, p1)" ..
  obtain v c' where ex: "Execute_args (\<lambda>f ra c. (True, c)) scenario_context 0x10 [7, 8] ?p = Inr (v, p1, c')"
    using res by (simp add: Execute_args_def Execute_cases)
  from Execute_args_leaves_argument_registers [OF ex] res ex show ?thesis
    by (simp add: scenario_context_def)
qed

subsection \<open>Builtin addresses and setup\<close>

lemma and_mask_ge: "(a :: u32) AND 0xFFFFFFF0 = 0xFFFFFFF0 \<Longrightarrow> 0xFFFFFFF0 \<le> a"
  by (metis word_and_le2)

lemma ge_and_mask:
  assumes "0xFFFFFFF0 \<le> (a :: u32)"
  shows "a AND 0xFFFFFFF0 = 0xFFFFFFF0"
proof -
  from assms have lo: "4294967280 \<le> unat a"
    by (simp add: word_le_nat_alt)
  have hi: "unat a < 4294967296"
    using unsigned_less [of a, where 'a = nat] by simp
  define d where "d = unat a - 4294967280"
  from lo hi have d: "d < 16" and n: "unat a = 4294967280 + d"
    by (simp_all add: d_def)
  have a: "a = 0xFFFFFFF0 + of_nat d"
  proof -
    have "a = of_nat (unat a)" by simp
    also have "\<dots> = 0xFFFFFFF0 + of_nat d" by (simp only: n of_nat_add of_nat_numeral)
    finally show ?thesis .
  qed
  from d consider "d = 0" | "d = 1" | "d = 2" | "d = 3" | "d = 4" | "d = 5" | "d = 6" | "d = 7"
    | "d = 8" | "d = 9" | "d = 10" | "d = 11" | "d = 12" | "d = 13" | "d = 14" | "d = 15"
    by (atomize_elim, presburger)
  then show ?thesis
    by cases (simp_all add: a)
qed

lemma stride_inj:
  assumes "i < 2 ^ 30" and "j < 2 ^ 30" and "(c :: u32) + 4 * of_nat i = c + 4 * of_nat j"
  shows "i = j"
proof -
  from assms(3) have "(of_nat (4 * i) :: u32) = of_nat (4 * j)"
    by simp
  then have "take_bit 32 (4 * i) = take_bit 32 (4 * j)"
    by (simp only: word_of_nat_eq_iff) simp
  moreover from assms(1) have "take_bit 32 (4 * i) = 4 * i"
    by (simp add: take_bit_nat_eq_self)
  moreover from assms(2) have "take_bit 32 (4 * j) = 4 * j"
    by (simp add: take_bit_nat_eq_self)
  ultimately show ?thesis by simp
qed

lemma stride_aligned:
  assumes "unat (c :: u32) mod 4 = 0"
  shows "unat (c + 4 * of_nat k) mod 4 = 0"
proof -
  have "c + 4 * of_nat k = of_nat (unat c + 4 * k)"
    by simp
  then have "unat (c + 4 * of_nat k) = (unat c + 4 * k) mod 2 ^ 32"
    by (simp only: unat_of_nat) simp
  then have "unat (c + 4 * of_nat k) mod 4 = (unat c + 4 * k) mod 2 ^ 32 mod 4"
    by simp
  also have "\<dots> = (unat c + 4 * k) mod 4"
    by (rule mod_mod_cancel) simp
  also from assms have "\<dots> = 0"
    by simp
  finally show ?thesis .
qed

lemma first_four:
  assumes "k < 2 ^ 30"
  shows "(0xFFFFFFF0 :: u32) \<le> 0xFFFFFFF0 + 4 * of_nat k \<longleftrightarrow> k < 4"
proof -
  have "(0xFFFFFFF0 :: u32) + 4 * of_nat k = of_nat (4294967280 + 4 * k)"
    by simp
  then have u: "unat ((0xFFFFFFF0 :: u32) + 4 * of_nat k) = (4294967280 + 4 * k) mod 2 ^ 32"
    by (simp only: unat_of_nat) simp
  show ?thesis
  proof (cases "k < 4")
    case True
    then have "(4294967280 + 4 * k) mod 2 ^ 32 = 4294967280 + 4 * k"
      by simp
    with True u show ?thesis
      by (simp add: word_le_nat_alt)
  next
    case False
    with assms have "(4294967280 + 4 * k) mod 2 ^ 32 = 4 * k - 16"
      by (simp add: mod_if)
    moreover from assms have "4 * k - 16 < 4294967280" by simp
    ultimately show ?thesis
      using False u by (simp add: word_le_nat_alt)
  qed
qed

lemma stride_period:
  "(4 * of_nat k :: u32) = 4 * of_nat (k mod 2 ^ 30)"
proof -
  have "4 * (k mod 2 ^ 30) = (4 * k) mod (4 * 2 ^ 30)"
    by (rule mult_mod_right)
  then have "take_bit 32 (4 * (k mod 2 ^ 30)) = take_bit 32 (4 * k)"
    by (simp add: take_bit_eq_mod)
  then have "(of_nat (4 * k) :: u32) = of_nat (4 * (k mod 2 ^ 30))"
    by (simp only: word_of_nat_eq_iff) simp
  then show ?thesis
    by simp
qed

lemma four_per_period:
  "(0xFFFFFFF0 :: u32) \<le> 0xFFFFFFF0 + 4 * of_nat k \<longleftrightarrow> k mod 2 ^ 30 < 4"
proof -
  have "k mod 2 ^ 30 < (2 :: nat) ^ 30"
    by simp
  then have "(0xFFFFFFF0 :: u32) \<le> 0xFFFFFFF0 + 4 * of_nat (k mod 2 ^ 30) \<longleftrightarrow> k mod 2 ^ 30 < 4"
    by (rule first_four)
  then show ?thesis
    by (simp only: stride_period [of k, symmetric])
qed

lemma DefineBuiltin_address:
  assumes "DefineBuiltin n h a0 a1 p = Inr (f, p')"
  shows "snd f = next_builtin_address p" and "next_builtin_address p' = next_builtin_address p + 4"
  using assms
  by (auto simp: DefineBuiltin_def Let_def set_end_address_def set_name_def SetupBuiltin_def
      set_status_def update_function_def split: option.splits if_splits prod.splits)

lemma DefineBuiltin_declared:
  assumes "DefineBuiltin n h a0 a1 p = Inr (f, p')"
  shows "builtin_declared p' f"
  using assms
  by (auto simp: DefineBuiltin_def Let_def set_end_address_def set_name_def SetupBuiltin_def
      set_status_def update_function_def get_function_def builtin_declared_def
      Module_DeclareFunction_def
      split: option.splits if_splits prod.splits)

lemma DefineBuiltin_keeps_declared:
  assumes "DefineBuiltin n h a0 a1 p = Inr (f, p')" and "builtin_declared p g"
  shows "builtin_declared p' g"
proof (cases "g = f")
  case True
  with assms(1) show ?thesis by (simp add: DefineBuiltin_declared)
next
  case False
  with assms(1) have "get_function p' g = get_function p g"
    by (cases g)
      (auto simp: DefineBuiltin_def Let_def set_end_address_def set_name_def SetupBuiltin_def
        set_status_def update_function_def get_function_def Module_DeclareFunction_def nth_list_update
        split: option.splits if_splits prod.splits)
  with assms(2) show ?thesis by (simp add: builtin_declared_def)
qed

lemma DefineBuiltins_keeps_declared:
  "DefineBuiltins rs p = Inr (fs, p') \<Longrightarrow> builtin_declared p g \<Longrightarrow> builtin_declared p' g"
proof (induction rs arbitrary: p fs)
  case Nil
  then show ?case by simp
next
  case (Cons x rs)
  obtain n h a0 a1 where x: "x = (n, h, a0, a1)" by (cases x)
  from Cons.prems(1) obtain f p1 fs' where
    1: "DefineBuiltin n h a0 a1 p = Inr (f, p1)" and 2: "DefineBuiltins rs p1 = Inr (fs', p')"
    by (auto simp: x split: sum.splits prod.splits)
  from 1 Cons.prems(2) have "builtin_declared p1 g" by (rule DefineBuiltin_keeps_declared)
  with 2 show ?case by (rule Cons.IH)
qed

lemma DefineBuiltins_all_declared:
  "DefineBuiltins rs p = Inr (fs, p') \<Longrightarrow> \<forall>f\<in>set fs. builtin_declared p' f"
proof (induction rs arbitrary: p fs)
  case Nil
  then show ?case by simp
next
  case (Cons x rs)
  obtain n h a0 a1 where x: "x = (n, h, a0, a1)" by (cases x)
  from Cons.prems(1) obtain f p1 fs' where
    1: "DefineBuiltin n h a0 a1 p = Inr (f, p1)" and 2: "DefineBuiltins rs p1 = Inr (fs', p')"
    and fs: "fs = f # fs'"
    by (auto simp: x split: sum.splits prod.splits)
  from 1 have "builtin_declared p1 f" by (rule DefineBuiltin_declared)
  with 2 have "builtin_declared p' f" by (rule DefineBuiltins_keeps_declared)
  moreover from 2 have "\<forall>f\<in>set fs'. builtin_declared p' f" by (rule Cons.IH)
  ultimately show ?case by (simp add: fs)
qed

lemma DefineBuiltins_addresses:
  "DefineBuiltins rs p = Inr (fs, p') \<Longrightarrow>
   map snd fs = map (\<lambda>k. next_builtin_address p + 4 * of_nat k) [0..<length rs]"
proof (induction rs arbitrary: p fs)
  case Nil
  then show ?case by simp
next
  case (Cons x rs)
  obtain n h a0 a1 where x: "x = (n, h, a0, a1)" by (cases x)
  from Cons.prems(1) obtain f p1 fs' where
    1: "DefineBuiltin n h a0 a1 p = Inr (f, p1)" and 2: "DefineBuiltins rs p1 = Inr (fs', p')"
    and fs: "fs = f # fs'"
    by (auto simp: x split: sum.splits prod.splits)
  from 2 have "map snd fs' = map (\<lambda>k. next_builtin_address p1 + 4 * of_nat k) [0..<length rs]"
    by (rule Cons.IH)
  also have "\<dots> = map (\<lambda>k. next_builtin_address p + 4 * of_nat (Suc k)) [0..<length rs]"
    by (simp add: DefineBuiltin_address(2) [OF 1] algebra_simps)
  also have "\<dots> = map (\<lambda>k. next_builtin_address p + 4 * of_nat k) (map Suc [0..<length rs])"
    by (simp add: comp_def)
  finally have "map snd fs' = map (\<lambda>k. next_builtin_address p + 4 * of_nat k) [1..<Suc (length rs)]"
    by (simp only: map_Suc_upt One_nat_def)
  with DefineBuiltin_address(1) [OF 1] show ?case
    by (simp add: fs upt_conv_Cons del: upt_Suc)
qed

lemma stride_distinct:
  assumes "n \<le> 2 ^ 30"
  shows "distinct (map (\<lambda>k. (c :: u32) + 4 * of_nat k) [0..<n])"
proof -
  have "inj_on (\<lambda>k. c + 4 * of_nat k) (set [0..<n])"
  proof (rule inj_onI)
    fix i j
    assume "i \<in> set [0..<n]" "j \<in> set [0..<n]" "c + 4 * of_nat i = c + 4 * of_nat j"
    with assms show "i = j"
      by (intro stride_inj [of i j c]) simp_all
  qed
  then show ?thesis by (simp add: distinct_map)
qed

text \<open>
  C8, as the code has it. The \<open>k\<close>-th call of \<^verbatim>\<open>DefineBuiltin\<close> (counting from 0) returns
  the cursor plus \<open>4 * k\<close> modulo \<open>2 ^ 32\<close>. Hence the addresses of at most \<open>2 ^ 30\<close>
  successive calls are pairwise distinct, and all are 4-byte aligned when the cursor is. An
  allocated address satisfies the builtin module's \<^verbatim>\<open>ContainsAddress\<close> exactly when it is
  at least 0xFFFFFFF0: from a cursor at 0xFFFFFFF0 the \<open>k\<close>-th call does exactly when
  \<open>k mod 2 ^ 30 < 4\<close>, so among the first \<open>2 ^ 30\<close> calls the first four do and no
  other. Every symbol has end address = address + 4 and status DECLARED.
\<close>

theorem DefineBuiltin_allocation:
  assumes "DefineBuiltins rs p = Inr (fs, p')"
  shows "map snd fs = map (\<lambda>k. next_builtin_address p + 4 * of_nat k) [0..<length rs] \<and>
         (length rs \<le> 2 ^ 30 \<longrightarrow> distinct (map snd fs)) \<and>
         (unat (next_builtin_address p) mod 4 = 0 \<longrightarrow> (\<forall>f\<in>set fs. unat (snd f) mod 4 = 0)) \<and>
         (\<forall>f\<in>set fs. ContainsAddress new_BuiltinModule (snd f) \<longleftrightarrow> 0xFFFFFFF0 \<le> snd f) \<and>
         (next_builtin_address p = 0xFFFFFFF0 \<and> length rs \<le> 2 ^ 30 \<longrightarrow>
            (\<forall>k<length fs. ContainsAddress new_BuiltinModule (snd (fs ! k)) \<longleftrightarrow> k < 4)) \<and>
         (next_builtin_address p = 0xFFFFFFF0 \<longrightarrow>
            (\<forall>k<length fs.
               ContainsAddress new_BuiltinModule (snd (fs ! k)) \<longleftrightarrow> k mod 2 ^ 30 < 4)) \<and>
         (\<forall>f\<in>set fs. builtin_declared p' f)"
proof -
  note addrs = DefineBuiltins_addresses [OF assms]
  from addrs have len: "length fs = length rs"
    by (metis length_map length_upt minus_nat.diff_0)
  have nth: "snd (fs ! k) = next_builtin_address p + 4 * of_nat k" if "k < length fs" for k
  proof -
    from that have "snd (fs ! k) = map snd fs ! k" by simp
    also from that len have "\<dots> = next_builtin_address p + 4 * of_nat k"
      by (simp only: addrs) simp
    finally show ?thesis .
  qed
  have contains: "ContainsAddress new_BuiltinModule a \<longleftrightarrow> 0xFFFFFFF0 \<le> a" for a
    by (auto simp: ContainsAddress_def new_BuiltinModule_def and_mask_ge ge_and_mask)
  have "length rs \<le> 2 ^ 30 \<longrightarrow> distinct (map snd fs)"
    by (simp add: addrs stride_distinct)
  moreover have "unat (next_builtin_address p) mod 4 = 0 \<longrightarrow> (\<forall>f\<in>set fs. unat (snd f) mod 4 = 0)"
  proof (intro impI ballI)
    fix f
    assume al: "unat (next_builtin_address p) mod 4 = 0" and "f \<in> set fs"
    then obtain k where "k < length fs" "f = fs ! k"
      by (auto simp: in_set_conv_nth)
    with al show "unat (snd f) mod 4 = 0"
      by (simp add: nth stride_aligned)
  qed
  moreover have "\<forall>f\<in>set fs. ContainsAddress new_BuiltinModule (snd f) \<longleftrightarrow> 0xFFFFFFF0 \<le> snd f"
    by (simp add: contains)
  moreover have "next_builtin_address p = 0xFFFFFFF0 \<and> length rs \<le> 2 ^ 30 \<longrightarrow>
           (\<forall>k<length fs. ContainsAddress new_BuiltinModule (snd (fs ! k)) \<longleftrightarrow> k < 4)"
  proof (intro impI allI)
    fix k
    assume a: "next_builtin_address p = 0xFFFFFFF0 \<and> length rs \<le> 2 ^ 30" and k: "k < length fs"
    with len have "k < 2 ^ 30" by simp
    then have "(0xFFFFFFF0 :: u32) \<le> 0xFFFFFFF0 + 4 * of_nat k \<longleftrightarrow> k < 4"
      by (rule first_four)
    with a k show "ContainsAddress new_BuiltinModule (snd (fs ! k)) \<longleftrightarrow> k < 4"
      by (simp add: contains nth)
  qed
  moreover have "next_builtin_address p = 0xFFFFFFF0 \<longrightarrow>
           (\<forall>k<length fs.
              ContainsAddress new_BuiltinModule (snd (fs ! k)) \<longleftrightarrow> k mod 2 ^ 30 < 4)"
  proof (intro impI allI)
    fix k
    assume "next_builtin_address p = 0xFFFFFFF0" and "k < length fs"
    then show "ContainsAddress new_BuiltinModule (snd (fs ! k)) \<longleftrightarrow> k mod 2 ^ 30 < 4"
      by (simp add: contains nth four_per_period)
  qed
  moreover have "\<forall>f\<in>set fs. builtin_declared p' f"
    using assms by (rule DefineBuiltins_all_declared)
  ultimately show ?thesis
    using addrs by blast
qed


text \<open>
  C8 as stated fails at the fifth builtin: the cursor wraps around to 0, which the builtin
  module does not contain.
\<close>

theorem fifth_builtin_outside_BuiltinModule:
  "(case DefineBuiltins [(''a'', 0, 0, 0), (''b'', 1, 0, 0), (''c'', 2, 0, 0), (''d'', 3, 0, 0),
                         (''e'', 4, 0, 0)] (scenario_processor (scenario_frontend True True)) of
      Inl err \<Rightarrow> False
    | Inr (fs, p') \<Rightarrow>
        map snd fs = [0xFFFFFFF0, 0xFFFFFFF4, 0xFFFFFFF8, 0xFFFFFFFC, 0] \<and>
        map (\<lambda>f. ContainsAddress new_BuiltinModule (snd f)) fs = [True, True, True, True, False])"
  by (simp add: scenario_defs builtin_defs ContainsAddress_def)

text \<open>
  Three builtins on a fresh processor: 0xFFFFFFF0, 0xFFFFFFF4 and 0xFFFFFFF8.
\<close>

theorem DefineBuiltin_allocation_witness:
  "(case DefineBuiltins [(''a'', 0, 0, 0), (''b'', 1, 0, 0), (''c'', 2, 0, 0)]
          (scenario_processor (scenario_frontend True True)) of
      Inl err \<Rightarrow> False
    | Inr (fs, p') \<Rightarrow>
        map snd fs = [0xFFFFFFF0, 0xFFFFFFF4, 0xFFFFFFF8] \<and> distinct (map snd fs) \<and>
        map (\<lambda>f. unat (snd f) mod 4) fs = [0, 0, 0] \<and>
        map (\<lambda>f. ContainsAddress new_BuiltinModule (snd f)) fs = [True, True, True] \<and>
        map (builtin_declared p') fs = [True, True, True])"
proof -
  let ?p = "scenario_processor (scenario_frontend True True)"
  let ?rs = "[(''a'', 0, 0, 0), (''b'', 1, 0, 0), (''c'', 2, 0, 0)]"
  have c: "next_builtin_address ?p = 0xFFFFFFF0"
    by (simp add: scenario_defs)
  obtain f0 f1 f2 p' where run: "DefineBuiltins ?rs ?p = Inr ([f0, f1, f2], p')"
    by (simp add: scenario_defs builtin_defs)
  from DefineBuiltin_allocation [OF run] c run show ?thesis
    by (simp add: upt_conv_Cons ContainsAddress_def new_BuiltinModule_def del: upt_Suc)
qed

text \<open>
  C7. The \<^verbatim>\<open>cpu\<close> flag selects the backend: \<^verbatim>\<open>"x64"\<close> the x64 backend (when the build has
  it), \<^verbatim>\<open>"any"\<close> the first available backend, any other value none. \<^verbatim>\<open>Setup\<close> returns
  false when a frontend or a backend is already there, when no backend is selected, and
  when the backend's or the frontend's \<^verbatim>\<open>Initialize\<close> fails; when it returns true the
  selected backend and the frontend are installed.
\<close>

theorem Setup_backend_selection:
  "(FLAGS_cpu env = ''x64'' \<longrightarrow>
      select_backend env = (if XENIA_HAS_X64_BACKEND env then Some X64Backend else None)) \<and>
   (FLAGS_cpu env = ''any'' \<longrightarrow> select_backend env = first_backend (available_backends env)) \<and>
   (FLAGS_cpu env \<noteq> ''x64'' \<and> FLAGS_cpu env \<noteq> ''any'' \<longrightarrow> select_backend env = None) \<and>
   (memory p \<noteq> None \<and>
    (frontend p \<noteq> None \<or> backend p \<noteq> None \<or> select_backend env = None \<or>
     (\<exists>be. select_backend env = Some be \<and> \<not> be_Initialize env be) \<or>
     \<not> fe_Initialize (make_PPCFrontend env)) \<longrightarrow>
    (\<exists>p'. Setup env p = Inr (False, p'))) \<and>
   (Setup env p = Inr (True, p') \<longrightarrow>
      backend p' = select_backend env \<and> backend p' \<noteq> None \<and>
      frontend p' = Some (make_PPCFrontend env))"
proof -
  have "\<exists>p'. Setup env p = Inr (False, p')"
    if "memory p \<noteq> None" and "frontend p \<noteq> None \<or> backend p \<noteq> None \<or> select_backend env = None \<or>
     (\<exists>be. select_backend env = Some be \<and> \<not> be_Initialize env be) \<or>
     \<not> fe_Initialize (make_PPCFrontend env)"
    using that by (auto simp: Setup_def Let_def split: option.splits)
  moreover have "backend p' = select_backend env \<and> backend p' \<noteq> None \<and>
      frontend p' = Some (make_PPCFrontend env)" if "Setup env p = Inr (True, p')"
    using that by (auto simp: Setup_def Let_def split: option.splits if_splits)
  moreover have "FLAGS_cpu env = ''x64'' \<longrightarrow>
      select_backend env = (if XENIA_HAS_X64_BACKEND env then Some X64Backend else None)"
    by (simp add: select_backend_def)
  moreover have "FLAGS_cpu env = ''any'' \<longrightarrow> select_backend env = first_backend (available_backends env)"
    by (simp add: select_backend_def available_backends_def first_backend_def)
  moreover have "FLAGS_cpu env \<noteq> ''x64'' \<and> FLAGS_cpu env \<noteq> ''any'' \<longrightarrow> select_backend env = None"
    by (simp add: select_backend_def)
  ultimately show ?thesis
    by blast
qed

text \<open>
  With the x64 backend built in: \<^verbatim>\<open>"any"\<close> and \<^verbatim>\<open>"x64"\<close> select it, \<^verbatim>\<open>"ppc"\<close> selects
  nothing and \<^verbatim>\<open>Setup\<close> fails; a second \<^verbatim>\<open>Setup\<close> after a successful one fails.
\<close>

theorem Setup_backend_selection_witness:
  "select_backend (scenario_env (scenario_frontend True True)) = Some X64Backend \<and>
   select_backend ((scenario_env (scenario_frontend True True))\<lparr>FLAGS_cpu := ''x64''\<rparr>) = Some X64Backend \<and>
   select_backend ((scenario_env (scenario_frontend True True))\<lparr>FLAGS_cpu := ''ppc''\<rparr>) = None \<and>
   (case Setup ((scenario_env (scenario_frontend True True))\<lparr>FLAGS_cpu := ''ppc''\<rparr>)
           (new_Processor (Some 0) None 0xFFFFFFF0) of
      Inl err \<Rightarrow> False | Inr (ok, p') \<Rightarrow> \<not> ok) \<and>
   (case Setup (scenario_env (scenario_frontend True True)) (new_Processor (Some 0) None 0xFFFFFFF0) of
      Inl err \<Rightarrow> False | Inr (ok, p') \<Rightarrow> ok \<and> backend p' = Some X64Backend \<and>
        (case Setup (scenario_env (scenario_frontend True True)) p' of
           Inl err \<Rightarrow> False | Inr (ok2, p'') \<Rightarrow> \<not> ok2))"
proof -
  let ?env = "scenario_env (scenario_frontend True True)"
  let ?p = "new_Processor (Some 0) None 0xFFFFFFF0"
  obtain p' where ok: "Setup ?env ?p = Inr (True, p')"
    by (simp add: scenario_defs)
  have m: "memory ?p \<noteq> None" by (simp add: new_Processor_def)
  from ok have m': "memory p' \<noteq> None"
    by (auto simp: scenario_defs)
  have any: "FLAGS_cpu ?env = ''any''" "XENIA_HAS_X64_BACKEND ?env"
    by (simp_all add: scenario_env_def)
  have x64: "FLAGS_cpu (?env\<lparr>FLAGS_cpu := ''x64''\<rparr>) = ''x64''" by simp
  have ppc: "FLAGS_cpu (?env\<lparr>FLAGS_cpu := ''ppc''\<rparr>) \<noteq> ''x64'' \<and> FLAGS_cpu (?env\<lparr>FLAGS_cpu := ''ppc''\<rparr>) \<noteq> ''any''"
    by simp
  from Setup_backend_selection [of ?env ?p p'] ok any
  have 1: "select_backend ?env = Some X64Backend" "backend p' = Some X64Backend"
    "frontend p' = Some (scenario_frontend True True)"
    by (simp_all add: available_backends_def first_backend_def scenario_env_def)
  from Setup_backend_selection [of "?env\<lparr>FLAGS_cpu := ''x64''\<rparr>" ?p p'] x64
  have 2: "select_backend (?env\<lparr>FLAGS_cpu := ''x64''\<rparr>) = Some X64Backend"
    by (simp add: scenario_env_def)
  from Setup_backend_selection [of "?env\<lparr>FLAGS_cpu := ''ppc''\<rparr>" ?p p'] ppc m
  have 3: "select_backend (?env\<lparr>FLAGS_cpu := ''ppc''\<rparr>) = None"
    "\<exists>q. Setup (?env\<lparr>FLAGS_cpu := ''ppc''\<rparr>) ?p = Inr (False, q)"
    by simp_all
  from Setup_backend_selection [of ?env p' p'] 1 m'
  have 4: "\<exists>q. Setup ?env p' = Inr (False, q)"
    by simp
  from 1 2 3 4 ok show ?thesis
    by auto
qed

end
